theory Spec2Isabelle
  imports Main
begin

section \<open>JavaScript values\<close>

text \<open>
  The catalog (\<^verbatim>\<open>await response.json()\<close>) and the analysis payload
  (\<^verbatim>\<open>JSON.parse(analysisResponse.text)\<close>) are untyped JSON data, so the handlers
  are modelled over a datatype of JavaScript values. An object is the association list
  of its own properties (a parsed object has each key once; \<open>map_of\<close> looks a key
  up). A number is only ever tested for
  truthiness or compared with \<open>0\<close> by the code, so its carrier is \<open>int\<close>.
  A string is a list of characters with codes below 256.
\<close>

datatype jsval =
    JUndefined
  | JNull
  | JBool bool
  | JNum int
  | JStr string
  | JArr "jsval list"
  | JObj "(string \<times> jsval) list"

text \<open>
  What the \<^verbatim>\<open>try\<close> block can throw: a \<^verbatim>\<open>TypeError\<close> raised by the code itself, or
  the rejection of the classification request.
\<close>

datatype js_exn = TypeError | RequestError

text \<open>\<^verbatim>\<open>!v\<close> is \<open>\<not> truthy v\<close>.\<close>

fun truthy :: "jsval \<Rightarrow> bool" where
  "truthy JUndefined = False"
| "truthy JNull = False"
| "truthy (JBool b) = b"
| "truthy (JNum n) = (n \<noteq> 0)"
| "truthy (JStr s) = (s \<noteq> [])"
| "truthy (JArr xs) = True"
| "truthy (JObj kvs) = True"

text \<open>\<^verbatim>\<open>Array.isArray(v)\<close>\<close>

fun isArray :: "jsval \<Rightarrow> bool" where
  "isArray (JArr xs) = True"
| "isArray v = False"

text \<open>
  \<^verbatim>\<open>v.k\<close> for the keys the code reads (\<^verbatim>\<open>isShoe\<close>, \<^verbatim>\<open>mainColors\<close>,
  \<^verbatim>\<open>sideColors\<close>, \<^verbatim>\<open>colorTags\<close>), none of which is a built-in property of a
  primitive or of an array: reading a property of \<^verbatim>\<open>null\<close> or \<^verbatim>\<open>undefined\<close>
  throws, an object yields its own property or \<^verbatim>\<open>undefined\<close>, anything else yields
  \<^verbatim>\<open>undefined\<close>.
\<close>

fun get_prop :: "jsval \<Rightarrow> string \<Rightarrow> js_exn + jsval" where
  "get_prop JUndefined k = Inl TypeError"
| "get_prop JNull k = Inl TypeError"
| "get_prop (JObj kvs) k = Inr (case map_of kvs k of None \<Rightarrow> JUndefined | Some v \<Rightarrow> v)"
| "get_prop v k = Inr JUndefined"

text \<open>\<^verbatim>\<open>v.length === 0\<close>\<close>

fun length_is_0 :: "jsval \<Rightarrow> js_exn + bool" where
  "length_is_0 JUndefined = Inl TypeError"
| "length_is_0 JNull = Inl TypeError"
| "length_is_0 (JArr xs) = Inr (xs = [])"
| "length_is_0 (JStr s) = Inr (s = [])"
| "length_is_0 (JObj kvs) = Inr (map_of kvs ''length'' = Some (JNum 0))"
| "length_is_0 v = Inr False"

text \<open>
  The elements that \<^verbatim>\<open>[...v]\<close> contributes: an array spreads to its elements, a string
  to its one-character strings, and any other JSON value is not iterable.
\<close>

fun spread :: "jsval \<Rightarrow> js_exn + jsval list" where
  "spread (JArr xs) = Inr xs"
| "spread (JStr s) = Inr (map (\<lambda>c. JStr [c]) s)"
| "spread v = Inl TypeError"

subsection \<open>Strings\<close>

text \<open>
  \<^verbatim>\<open>String.prototype.toLowerCase\<close> on characters with codes below 256: \<open>A\<close> to \<open>Z\<close>
  and the accented capitals \<open>0xC0\<close> to \<open>0xDE\<close> (but not the multiplication sign
  \<open>0xD7\<close>) move up by 32, every other character stays.
\<close>

definition lower_char :: "char \<Rightarrow> char" where
  "lower_char c =
     (let n = (of_char c :: nat)
      in if (65 \<le> n \<and> n \<le> 90) \<or> (192 \<le> n \<and> n \<le> 222 \<and> n \<noteq> 215)
         then char_of (n + 32) else c)"

definition toLowerCase :: "string \<Rightarrow> string" where
  "toLowerCase s = map lower_char s"

text \<open>
  \<^verbatim>\<open>v.toLowerCase()\<close> on a JSON value: only a string has the method; on
  \<^verbatim>\<open>null\<close> the property read throws, on anything else the call of
  \<^verbatim>\<open>undefined\<close> throws.
\<close>

fun call_toLowerCase :: "jsval \<Rightarrow> js_exn + string" where
  "call_toLowerCase (JStr s) = Inr (toLowerCase s)"
| "call_toLowerCase v = Inl TypeError"

text \<open>
  \<^verbatim>\<open>xs.map(f)\<close> and \<^verbatim>\<open>xs.filter(p)\<close> with a callback that may throw: the
  elements are visited in index order and the first exception ends the call.
\<close>

fun map_exn :: "('a \<Rightarrow> js_exn + 'b) \<Rightarrow> 'a list \<Rightarrow> js_exn + 'b list" where
  "map_exn f [] = Inr []"
| "map_exn f (x # xs) =
     (case f x of
        Inl e \<Rightarrow> Inl e
      | Inr y \<Rightarrow> (case map_exn f xs of Inl e \<Rightarrow> Inl e | Inr ys \<Rightarrow> Inr (y # ys)))"

fun filter_exn :: "('a \<Rightarrow> js_exn + bool) \<Rightarrow> 'a list \<Rightarrow> js_exn + 'a list" where
  "filter_exn p [] = Inr []"
| "filter_exn p (x # xs) =
     (case p x of
        Inl e \<Rightarrow> Inl e
      | Inr b \<Rightarrow>
          (case filter_exn p xs of
             Inl e \<Rightarrow> Inl e
           | Inr ys \<Rightarrow> Inr (if b then x # ys else ys)))"

text \<open>
  \<^verbatim>\<open>allProducts.filter(p)\<close>: \<^verbatim>\<open>allProducts\<close> holds whatever the catalog endpoint
  returned; only an array has a \<^verbatim>\<open>filter\<close> method.
\<close>

fun array_filter :: "(jsval \<Rightarrow> js_exn + bool) \<Rightarrow> jsval \<Rightarrow> js_exn + jsval list" where
  "array_filter p (JArr xs) = filter_exn p xs"
| "array_filter p v = Inl TypeError"

section \<open>The matching rules of \<^verbatim>\<open>handleImageAnalysis\<close>\<close>

text \<open>
  The \<^verbatim>\<open>for (const tag of lowerCaseProductTags)\<close> loop, with the running value of
  \<^verbatim>\<open>commonColorCount\<close> as accumulator.
\<close>

fun count_loop :: "string set \<Rightarrow> string list \<Rightarrow> nat \<Rightarrow> nat" where
  "count_loop detectedColorsSet [] commonColorCount = commonColorCount"
| "count_loop detectedColorsSet (tag # tags) commonColorCount =
     count_loop detectedColorsSet tags
       (if tag \<in> detectedColorsSet then commonColorCount + 1 else commonColorCount)"

text \<open>
  Rule 1, the callback of the first \<^verbatim>\<open>filter\<close>: at least 3 colors are shared.
  After the guard \<open>colorTags\<close> is an array, so the last case is never taken.
\<close>

definition rule1 :: "string set \<Rightarrow> jsval \<Rightarrow> js_exn + bool" where
  "rule1 detectedColorsSet product =
     (case get_prop product ''colorTags'' of
        Inl e \<Rightarrow> Inl e
      | Inr colorTags \<Rightarrow>
          if \<not> truthy colorTags \<or> \<not> isArray colorTags then Inr False
          else (case colorTags of
                  JArr tags \<Rightarrow>
                    (case map_exn call_toLowerCase tags of
                       Inl e \<Rightarrow> Inl e
                     | Inr lowerCaseProductTags \<Rightarrow>
                         Inr (3 \<le> count_loop detectedColorsSet lowerCaseProductTags 0))
                | _ \<Rightarrow> Inr False))"

text \<open>
  Rule 2, the callback of the second \<^verbatim>\<open>filter\<close>: all detected colors are present.
  The tags are lower-cased (and the set built) before \<^verbatim>\<open>every\<close> runs. As in rule 1,
  the last case is never taken.
\<close>

definition rule2 :: "string list \<Rightarrow> jsval \<Rightarrow> js_exn + bool" where
  "rule2 lowerCaseDetectedColors product =
     (case get_prop product ''colorTags'' of
        Inl e \<Rightarrow> Inl e
      | Inr colorTags \<Rightarrow>
          if \<not> truthy colorTags \<or> \<not> isArray colorTags then Inr False
          else (case colorTags of
                  JArr tags \<Rightarrow>
                    (case map_exn call_toLowerCase tags of
                       Inl e \<Rightarrow> Inl e
                     | Inr lowerCaseProductTags \<Rightarrow>
                         (let productTagsSet = set lowerCaseProductTags
                          in Inr (list_all (\<lambda>color. color \<in> productTagsSet)
                                    lowerCaseDetectedColors)))
                | _ \<Rightarrow> Inr False))"

text \<open>
  Lines 222 to 255: lower-case the detected colors, build the set, choose the rule by
  the length of the list, and filter the catalog.
\<close>

definition match_products :: "jsval list \<Rightarrow> jsval \<Rightarrow> js_exn + jsval list" where
  "match_products colors allProducts =
     (case map_exn call_toLowerCase colors of
        Inl e \<Rightarrow> Inl e
      | Inr lowerCaseDetectedColors \<Rightarrow>
          (let detectedColorsSet = set lowerCaseDetectedColors
           in if 3 \<le> length lowerCaseDetectedColors
              then array_filter (rule1 detectedColorsSet) allProducts
              else array_filter (rule2 lowerCaseDetectedColors) allProducts))"

section \<open>The analysis handler\<close>

text \<open>
  The message passed to \<^verbatim>\<open>setError\<close>, by the place that sets it: the parse failure,
  the missing \<^verbatim>\<open>isShoe\<close>, the falsy \<^verbatim>\<open>isShoe\<close>, the two empty color lists, and the
  outer \<^verbatim>\<open>catch\<close> ("Sorry, we couldn't analyze the image or find matches").
\<close>

datatype analysis_error =
    MalformedResponse
  | InconclusiveAnalysis
  | NotAShoe
  | NoColorsDetected
  | AnalysisOrMatchingFailed

text \<open>
  The component state the handler writes. \<open>detectedColors\<close> is the pair
  \<^verbatim>\<open>{ mainColors, sideColors }\<close>; \<open>error = None\<close> is the empty message.
\<close>

record app_state =
  allProducts :: jsval
  matchingProducts :: "jsval list"
  detectedColors :: "jsval \<times> jsval"
  isAnalyzing :: bool
  analysisMessage :: string
  error :: "analysis_error option"

text \<open>Lines 142 to 146, the resets before the request is sent.\<close>

definition begin_analysis :: "app_state \<Rightarrow> app_state" where
  "begin_analysis st =
     st\<lparr>isAnalyzing := True, error := None, detectedColors := (JArr [], JArr []),
        matchingProducts := [], analysisMessage := ''Analyzing image...''\<rparr>"

text \<open>An early \<^verbatim>\<open>return\<close> of the \<^verbatim>\<open>try\<close> block after \<^verbatim>\<open>setError\<close>.\<close>

definition fail_with :: "analysis_error \<Rightarrow> app_state \<Rightarrow> app_state \<times> js_exn option" where
  "fail_with err st = (st\<lparr>error := Some err, isAnalyzing := False\<rparr>, None)"

text \<open>
  Lines 216 to 257: publish the detected colors, concatenate them and match. An
  exception leaves the state as it is at that point.
\<close>

definition match_stage :: "app_state \<Rightarrow> jsval \<Rightarrow> jsval \<Rightarrow> app_state \<times> js_exn option" where
  "match_stage st mainColors sideColors =
     (let st1 = st\<lparr>detectedColors := (mainColors, sideColors)\<rparr>
      in case spread mainColors of
           Inl e \<Rightarrow> (st1, Some e)
         | Inr ms \<Rightarrow>
             (case spread sideColors of
                Inl e \<Rightarrow> (st1, Some e)
              | Inr ss \<Rightarrow>
                  (case match_products (ms @ ss) (allProducts st1) of
                     Inl e \<Rightarrow> (st1, Some e)
                   | Inr matches \<Rightarrow> (st1\<lparr>matchingProducts := matches\<rparr>, None))))"

text \<open>\<^verbatim>\<open>const { k = [] } = analysisResult\<close>: the default replaces \<^verbatim>\<open>undefined\<close> only.\<close>

definition get_or_empty :: "jsval \<Rightarrow> string \<Rightarrow> js_exn + jsval" where
  "get_or_empty obj k =
     (case get_prop obj k of
        Inl e \<Rightarrow> Inl e
      | Inr v \<Rightarrow> Inr (if v = JUndefined then JArr [] else v))"

text \<open>Lines 208 to 214: destructure with defaults, and stop when both lists are empty.\<close>

definition colors_stage :: "app_state \<Rightarrow> jsval \<Rightarrow> app_state \<times> js_exn option" where
  "colors_stage st analysisResult =
     (case get_or_empty analysisResult ''mainColors'' of
        Inl e \<Rightarrow> (st, Some e)
      | Inr mainColors \<Rightarrow>
          (case get_or_empty analysisResult ''sideColors'' of
             Inl e \<Rightarrow> (st, Some e)
           | Inr sideColors \<Rightarrow>
               (case length_is_0 mainColors of
                  Inl e \<Rightarrow> (st, Some e)
                | Inr z1 \<Rightarrow>
                    if \<not> z1 then match_stage st mainColors sideColors
                    else (case length_is_0 sideColors of
                            Inl e \<Rightarrow> (st, Some e)
                          | Inr z2 \<Rightarrow>
                              if z2 then fail_with NoColorsDetected st
                              else match_stage st mainColors sideColors))))"

text \<open>
  Lines 196 to 206, the checks on the parsed \<^verbatim>\<open>analysisResult\<close>, and then the rest of
  the \<^verbatim>\<open>try\<close> block. The result is the state reached and the exception thrown, if
  any.
\<close>

definition after_parse :: "app_state \<Rightarrow> jsval \<Rightarrow> app_state \<times> js_exn option" where
  "after_parse st analysisResult =
     (if \<not> truthy analysisResult then fail_with InconclusiveAnalysis st
      else (case get_prop analysisResult ''isShoe'' of
              Inl e \<Rightarrow> (st, Some e)
            | Inr isShoe \<Rightarrow>
                if isShoe = JUndefined then fail_with InconclusiveAnalysis st
                else if \<not> truthy isShoe then fail_with NotAShoe st
                else colors_stage st analysisResult))"

text \<open>
  What comes back from the classification service: the request is rejected, or its text
  does not parse as JSON, or it parses to a value.
\<close>

datatype analysis_response = RequestFailed | Unparsable | Parsed jsval

text \<open>
  Lines 148 to 257, the \<^verbatim>\<open>try\<close> block: a rejected request throws, a text that
  \<^verbatim>\<open>JSON.parse\<close> refuses is caught by the inner \<^verbatim>\<open>catch\<close>, which sets the
  message and returns.
\<close>

fun try_body :: "app_state \<Rightarrow> analysis_response \<Rightarrow> app_state \<times> js_exn option" where
  "try_body st RequestFailed = (st, Some RequestError)"
| "try_body st Unparsable = fail_with MalformedResponse st"
| "try_body st (Parsed analysisResult) = after_parse st analysisResult"

text \<open>
  The handler once an image is selected, as a function of the service's response: the
  resets, the \<^verbatim>\<open>try\<close> block, the \<^verbatim>\<open>catch\<close> that turns any exception into the
  general message, and the \<^verbatim>\<open>finally\<close> that clears the busy flag and the progress
  message.
\<close>

definition handleImageAnalysis :: "app_state \<Rightarrow> analysis_response \<Rightarrow> app_state" where
  "handleImageAnalysis st response =
     (case try_body (begin_analysis st) response of
        (st1, thrown) \<Rightarrow>
          (let st2 = (case thrown of
                        None \<Rightarrow> st1
                      | Some aiError \<Rightarrow> st1\<lparr>error := Some AnalysisOrMatchingFailed\<rparr>)
           in st2\<lparr>isAnalyzing := False, analysisMessage := []\<rparr>))"

section \<open>Product creation: \<^verbatim>\<open>handleProductSubmit\<close>\<close>

text \<open>
  \<^verbatim>\<open>s.split(',')\<close>: the pieces between the separators, in order; an empty string
  gives one empty piece.
\<close>

fun split :: "char \<Rightarrow> string \<Rightarrow> string list" where
  "split sep [] = [[]]"
| "split sep (c # cs) =
     (if c = sep then [] # split sep cs
      else (c # hd (split sep cs)) # tl (split sep cs))"

text \<open>
  The white space and line terminators that \<^verbatim>\<open>trim\<close> removes, among the characters
  with codes below 256: tab, line feed, vertical tab, form feed, carriage return, space
  and the no-break space.
\<close>

definition is_space :: "char \<Rightarrow> bool" where
  "is_space c = (of_char c \<in> {9, 10, 11, 12, 13, 32, 160 :: nat})"

definition trim :: "string \<Rightarrow> string" where
  "trim s = rev (dropWhile is_space (rev (dropWhile is_space s)))"

text \<open>\<^verbatim>\<open>s.split(',').map(s => s.trim()).filter(Boolean)\<close>: a string is falsy when empty.\<close>

definition colors_array :: "string \<Rightarrow> string list" where
  "colors_array s = filter (\<lambda>p. p \<noteq> []) (map trim (split CHR '','' s))"

record new_product =
  name :: string
  imageSrc :: string
  link :: string
  mainColors :: string
  sideColors :: string

text \<open>The body of the POST request, \<^verbatim>\<open>{ ...newProduct, colorTags }\<close>.\<close>

record product_body = new_product +
  colorTags :: "string list"

text \<open>
  The handler up to the request: \<open>None\<close> when a required field is empty (the alert and
  the early return), otherwise the body that is sent.
\<close>

definition handleProductSubmit :: "new_product \<Rightarrow> product_body option" where
  "handleProductSubmit newProduct =
     (if name newProduct = [] \<or> imageSrc newProduct = [] \<or> link newProduct = [] then None
      else
        (let mainColorsArray = colors_array (mainColors newProduct);
             sideColorsArray = colors_array (sideColors newProduct)
         in Some \<lparr>name = name newProduct, imageSrc = imageSrc newProduct,
                   link = link newProduct, mainColors = mainColors newProduct,
                   sideColors = sideColors newProduct,
                   colorTags = mainColorsArray @ sideColorsArray\<rparr>))"

section \<open>Notions used to state the properties\<close>

text \<open>
  A detected color and a well-formed color tag are strings. \<open>tag_array\<close> is the
  array stored under \<^verbatim>\<open>colorTags\<close> when there is one, \<open>tag_strings\<close> the tags of
  such an array, and a product is \<open>well_formed\<close> when it is not \<^verbatim>\<open>null\<close> and its
  \<^verbatim>\<open>colorTags\<close>, if an array, holds strings only.
\<close>

fun is_str :: "jsval \<Rightarrow> bool" where
  "is_str (JStr s) = True"
| "is_str v = False"

fun str_of :: "jsval \<Rightarrow> string" where
  "str_of (JStr s) = s"
| "str_of v = []"

definition tag_array :: "jsval \<Rightarrow> jsval list option" where
  "tag_array product =
     (case get_prop product ''colorTags'' of
        Inr (JArr tags) \<Rightarrow> Some tags
      | _ \<Rightarrow> None)"

definition tag_strings :: "jsval \<Rightarrow> string list" where
  "tag_strings product = (case tag_array product of None \<Rightarrow> [] | Some tags \<Rightarrow> map str_of tags)"

definition well_formed :: "jsval \<Rightarrow> bool" where
  "well_formed product =
     (product \<noteq> JNull \<and> product \<noteq> JUndefined \<and>
      (case tag_array product of None \<Rightarrow> True | Some tags \<Rightarrow> list_all is_str tags))"

text \<open>
  The list a payload carries under a color key: empty when the key is absent, the
  elements when it holds an array, and none otherwise.
\<close>

definition color_list :: "jsval \<Rightarrow> string \<Rightarrow> jsval list option" where
  "color_list payload k =
     (case get_prop payload k of
        Inr JUndefined \<Rightarrow> Some []
      | Inr (JArr cs) \<Rightarrow> Some cs
      | _ \<Rightarrow> None)"

text \<open>
  \<^verbatim>\<open>pieces.join(sep)\<close>, the inverse against which \<open>split\<close> is checked.
\<close>

fun join :: "char \<Rightarrow> string list \<Rightarrow> string" where
  "join sep [] = []"
| "join sep [p] = p"
| "join sep (p # q # ps) = p @ sep # join sep (q # ps)"

section \<open>Properties of the model\<close>

subsection \<open>Auxiliary facts\<close>

lemma count_loop_filter:
  "count_loop S tags n = n + length (filter (\<lambda>tag. tag \<in> S) tags)"
  by (induction tags arbitrary: n) simp_all

lemma map_exn_strings: "map_exn call_toLowerCase (map JStr D) = Inr (map toLowerCase D)"
  by (induction D) simp_all

lemma strings_map_JStr: "list_all is_str vs \<Longrightarrow> map JStr (map str_of vs) = vs"
proof (induction vs)
  case Nil
  show ?case by simp
next
  case (Cons v vs)
  then show ?case by (cases v) simp_all
qed

lemma map_exn_all_strings:
  "list_all is_str vs \<Longrightarrow> map_exn call_toLowerCase vs = Inr (map toLowerCase (map str_of vs))"
proof (induction vs)
  case Nil
  show ?case by simp
next
  case (Cons v vs)
  then show ?case by (cases v) simp_all
qed

lemma filter_exn_total:
  "\<forall>x \<in> set xs. p x = Inr (q x) \<Longrightarrow> filter_exn p xs = Inr (filter q xs)"
  by (induction xs) simp_all

lemma filter_exn_Inr:
  "filter_exn p xs = Inr ys \<Longrightarrow> ys = filter (\<lambda>x. p x = Inr True) xs"
proof (induction xs arbitrary: ys)
  case Nil
  then show ?case by simp
next
  case (Cons x xs)
  then show ?case by (auto split: sum.splits if_splits)
qed

lemma get_prop_total: "product \<noteq> JNull \<Longrightarrow> product \<noteq> JUndefined \<Longrightarrow> \<exists>v. get_prop product k = Inr v"
  by (cases product) simp_all

lemma rule1_no_array:
  "get_prop product ''colorTags'' = Inr v \<Longrightarrow> \<not> isArray v \<Longrightarrow> rule1 S product = Inr False"
  by (simp add: rule1_def)

lemma rule2_no_array:
  "get_prop product ''colorTags'' = Inr v \<Longrightarrow> \<not> isArray v \<Longrightarrow> rule2 lc product = Inr False"
  by (simp add: rule2_def)

lemma tag_array_None:
  "product \<noteq> JNull \<Longrightarrow> product \<noteq> JUndefined \<Longrightarrow> tag_array product = None \<Longrightarrow>
   \<exists>v. get_prop product ''colorTags'' = Inr v \<and> \<not> isArray v"
  using get_prop_total [of product "''colorTags''"]
  by (auto simp: tag_array_def split: sum.splits jsval.splits)

lemma tag_array_Some:
  "tag_array product = Some tags \<longleftrightarrow> get_prop product ''colorTags'' = Inr (JArr tags)"
  by (auto simp: tag_array_def split: sum.splits jsval.splits)

lemma rule1_well_formed:
  assumes "well_formed product"
  shows "rule1 S product = Inr (3 \<le> length (filter (\<lambda>tag. toLowerCase tag \<in> S) (tag_strings product)))"
proof (cases "tag_array product")
  case None
  with assms obtain v where "get_prop product ''colorTags'' = Inr v" "\<not> isArray v"
    using tag_array_None by (auto simp: well_formed_def)
  then have "rule1 S product = Inr False" by (rule rule1_no_array)
  with None show ?thesis by (simp add: tag_strings_def)
next
  case (Some tags)
  then have g: "get_prop product ''colorTags'' = Inr (JArr tags)" by (simp add: tag_array_Some)
  from assms Some have "list_all is_str tags" by (simp add: well_formed_def)
  then have "map_exn call_toLowerCase tags = Inr (map toLowerCase (map str_of tags))"
    by (rule map_exn_all_strings)
  with g Some show ?thesis
    by (simp add: rule1_def tag_strings_def count_loop_filter filter_map comp_def)
qed

lemma rule2_well_formed:
  assumes "well_formed product"
  shows "rule2 lc product =
           Inr (tag_array product \<noteq> None \<and>
                (\<forall>color \<in> set lc. color \<in> set (map toLowerCase (tag_strings product))))"
proof (cases "tag_array product")
  case None
  with assms obtain v where "get_prop product ''colorTags'' = Inr v" "\<not> isArray v"
    using tag_array_None by (auto simp: well_formed_def)
  then have "rule2 lc product = Inr False" by (rule rule2_no_array)
  with None show ?thesis by simp
next
  case (Some tags)
  then have g: "get_prop product ''colorTags'' = Inr (JArr tags)" by (simp add: tag_array_Some)
  from assms Some have "list_all is_str tags" by (simp add: well_formed_def)
  then have "map_exn call_toLowerCase tags = Inr (map toLowerCase (map str_of tags))"
    by (rule map_exn_all_strings)
  with g Some show ?thesis
    by (simp add: rule2_def tag_strings_def list_all_iff)
qed

lemma match_products_strings:
  "match_products (map JStr D) catalog =
     (if 3 \<le> length D then array_filter (rule1 (set (map toLowerCase D))) catalog
      else array_filter (rule2 (map toLowerCase D)) catalog)"
  by (simp add: match_products_def map_exn_strings)

lemma match_products_well_formed:
  assumes "list_all well_formed catalog"
  shows "match_products (map JStr D) (JArr catalog) =
           Inr (filter (\<lambda>P. if 3 \<le> length D
                              then 3 \<le> length (filter (\<lambda>tag. toLowerCase tag \<in> set (map toLowerCase D))
                                                 (tag_strings P))
                              else tag_array P \<noteq> None \<and>
                                   (\<forall>color \<in> set (map toLowerCase D).
                                      color \<in> set (map toLowerCase (tag_strings P))))
                  catalog)"
proof (cases "3 \<le> length D")
  case True
  let ?q = "\<lambda>P. 3 \<le> length (filter (\<lambda>tag. toLowerCase tag \<in> set (map toLowerCase D))
                             (tag_strings P))"
  from assms have "\<forall>P \<in> set catalog. rule1 (set (map toLowerCase D)) P = Inr (?q P)"
    by (simp add: list_all_iff rule1_well_formed)
  then have "filter_exn (rule1 (set (map toLowerCase D))) catalog = Inr (filter ?q catalog)"
    by (rule filter_exn_total)
  with True show ?thesis by (simp add: match_products_strings)
next
  case False
  let ?q = "\<lambda>P. tag_array P \<noteq> None \<and>
               (\<forall>color \<in> set (map toLowerCase D). color \<in> set (map toLowerCase (tag_strings P)))"
  from assms have "\<forall>P \<in> set catalog. rule2 (map toLowerCase D) P = Inr (?q P)"
    by (simp add: list_all_iff rule2_well_formed)
  then have "filter_exn (rule2 (map toLowerCase D)) catalog = Inr (filter ?q catalog)"
    by (rule filter_exn_total)
  with False show ?thesis by (simp add: match_products_strings)
qed

lemma match_products_member:
  assumes "match_products colors (JArr catalog) = Inr matches" and "P \<in> set matches"
  shows "(\<exists>S. rule1 S P = Inr True) \<or> (\<exists>lc. rule2 lc P = Inr True)"
proof (cases "map_exn call_toLowerCase colors")
  case (Inl e)
  with assms(1) show ?thesis by (simp add: match_products_def)
next
  case (Inr lcs)
  show ?thesis
  proof (cases "3 \<le> length lcs")
    case True
    with assms(1) Inr have "filter_exn (rule1 (set lcs)) catalog = Inr matches"
      by (simp add: match_products_def)
    then have "matches = filter (\<lambda>x. rule1 (set lcs) x = Inr True) catalog"
      by (rule filter_exn_Inr)
    with assms(2) show ?thesis by auto
  next
    case False
    with assms(1) Inr have "filter_exn (rule2 lcs) catalog = Inr matches"
      by (simp add: match_products_def)
    then have "matches = filter (\<lambda>x. rule2 lcs x = Inr True) catalog"
      by (rule filter_exn_Inr)
    with assms(2) show ?thesis by auto
  qed
qed

lemma handler_inconclusive:
  assumes "\<not> truthy r \<or> get_prop r ''isShoe'' = Inr JUndefined"
  shows "handleImageAnalysis st (Parsed r) =
           st\<lparr>isAnalyzing := False, error := Some InconclusiveAnalysis,
              detectedColors := (JArr [], JArr []), matchingProducts := [],
              analysisMessage := []\<rparr>"
  using assms
  by (auto simp: handleImageAnalysis_def after_parse_def fail_with_def begin_analysis_def)

lemma match_stage_error: "error (fst (match_stage st m s)) = error st"
  by (simp add: match_stage_def Let_def split: sum.splits)

lemma colors_stage_error:
  "error (fst (colors_stage st r)) = error st \<or>
   error (fst (colors_stage st r)) = Some NoColorsDetected"
  by (simp add: colors_stage_def fail_with_def match_stage_error split: sum.splits)

lemma after_parse_error:
  assumes "truthy r" and "get_prop r ''isShoe'' \<noteq> Inr JUndefined"
  shows "error (fst (after_parse st r)) \<in> {error st, Some NotAShoe, Some NoColorsDetected}"
  using assms colors_stage_error [of st r]
  by (auto simp: after_parse_def fail_with_def split: sum.splits)

lemma handler_error:
  "error (handleImageAnalysis st (Parsed r)) =
     (case snd (try_body (begin_analysis st) (Parsed r)) of
        None \<Rightarrow> error (fst (try_body (begin_analysis st) (Parsed r)))
      | Some e \<Rightarrow> Some AnalysisOrMatchingFailed)"
  by (simp add: handleImageAnalysis_def Let_def split: prod.splits option.splits)

lemma handler_not_inconclusive:
  assumes "truthy r" and "get_prop r ''isShoe'' \<noteq> Inr JUndefined"
  shows "error (handleImageAnalysis st (Parsed r)) \<noteq> Some InconclusiveAnalysis"
proof -
  have "error (begin_analysis st) = None" by (simp add: begin_analysis_def)
  with after_parse_error [OF assms, of "begin_analysis st"]
  have "error (fst (try_body (begin_analysis st) (Parsed r))) \<noteq> Some InconclusiveAnalysis" by auto
  then show ?thesis by (simp add: handler_error split: option.splits)
qed

lemma get_or_empty_color_list:
  "color_list r k = Some cs \<Longrightarrow> get_or_empty r k = Inr (JArr cs)"
  by (auto simp: color_list_def get_or_empty_def split: sum.splits jsval.splits)

lemma isShoe_true_truthy: "get_prop r ''isShoe'' = Inr (JBool True) \<Longrightarrow> truthy r"
  by (cases r) simp_all

lemma after_parse_shoe:
  assumes "get_prop r ''isShoe'' = Inr (JBool True)"
      and "color_list r ''mainColors'' = Some ms"
      and "color_list r ''sideColors'' = Some ss"
  shows "after_parse st r =
           (if ms = [] \<and> ss = [] then fail_with NoColorsDetected st
            else match_stage st (JArr ms) (JArr ss))"
  using assms isShoe_true_truthy [OF assms(1)]
  by (simp add: after_parse_def colors_stage_def get_or_empty_color_list)

lemma match_stage_arrays:
  "match_stage st (JArr ms) (JArr ss) =
     (case match_products (ms @ ss) (allProducts st) of
        Inl e \<Rightarrow> (st\<lparr>detectedColors := (JArr ms, JArr ss)\<rparr>, Some e)
      | Inr matches \<Rightarrow>
          (st\<lparr>detectedColors := (JArr ms, JArr ss), matchingProducts := matches\<rparr>, None))"
  by (simp add: match_stage_def Let_def)

lemma split_not_Nil: "split sep s \<noteq> []"
  by (induction s) simp_all

lemma join_split: "join sep (split sep s) = s"
proof (induction s)
  case Nil
  show ?case by simp
next
  case (Cons c cs)
  obtain p ps where ps: "split sep cs = p # ps"
    using split_not_Nil [of sep cs] by (cases "split sep cs") auto
  with Cons show ?case by (cases ps) auto
qed

lemma split_piece_chars:
  "p \<in> set (split sep s) \<Longrightarrow> set p \<subseteq> set s - {sep}"
proof (induction s arbitrary: p)
  case Nil
  then show ?case by simp
next
  case (Cons c cs)
  obtain q qs where qs: "split sep cs = q # qs"
    using split_not_Nil [of sep cs] by (cases "split sep cs") auto
  have q: "set q \<subseteq> set cs - {sep}" using Cons.IH [of q] qs by simp
  have r: "set r \<subseteq> set cs - {sep}" if "r \<in> set qs" for r
    using Cons.IH [of r] qs that by simp
  show ?case
  proof (cases "c = sep")
    case True
    with Cons.prems qs have "p = [] \<or> p = q \<or> p \<in> set qs" by auto
    with q r show ?thesis by auto
  next
    case False
    with Cons.prems qs have "p = c # q \<or> p \<in> set qs" by auto
    with q r False show ?thesis by auto
  qed
qed

lemma length_split: "length (split sep s) = Suc (length (filter (\<lambda>c. c = sep) s))"
proof (induction s)
  case Nil
  show ?case by simp
next
  case (Cons c cs)
  then show ?case using split_not_Nil [of sep cs] by (cases "split sep cs") auto
qed

lemma trim_eq_Nil: "trim s = [] \<longleftrightarrow> (\<forall>c \<in> set s. is_space c)"
proof
  assume "trim s = []"
  then have "\<forall>c \<in> set (dropWhile is_space s). is_space c"
    by (simp add: trim_def)
  then have "dropWhile is_space s = []"
    using hd_dropWhile [of is_space s] by (cases "dropWhile is_space s") auto
  then show "\<forall>c \<in> set s. is_space c" by simp
next
  assume "\<forall>c \<in> set s. is_space c"
  then show "trim s = []" by (auto simp: trim_def dest: set_dropWhileD)
qed

lemma trim_decomposition:
  "\<exists>a b. s = a @ trim s @ b \<and> (\<forall>c \<in> set a. is_space c) \<and> (\<forall>c \<in> set b. is_space c)"
proof -
  let ?a = "takeWhile is_space s"
  let ?m = "dropWhile is_space s"
  let ?b = "rev (takeWhile is_space (rev ?m))"
  have "rev ?m = takeWhile is_space (rev ?m) @ dropWhile is_space (rev ?m)" by simp
  then have "?m = rev (dropWhile is_space (rev ?m)) @ ?b"
    by (metis rev_append rev_rev_ident)
  then have "?m = trim s @ ?b" by (simp add: trim_def)
  then have "s = ?a @ trim s @ ?b" by (metis takeWhile_dropWhile_id)
  moreover have "\<forall>c \<in> set ?a. is_space c" by (auto dest: set_takeWhileD)
  moreover have "\<forall>c \<in> set ?b. is_space c" by (auto dest: set_takeWhileD)
  ultimately show ?thesis by blast
qed

lemma trim_ends:
  assumes "trim s \<noteq> []"
  shows "\<not> is_space (hd (trim s)) \<and> \<not> is_space (last (trim s))"
proof -
  let ?m = "dropWhile is_space s"
  let ?r = "dropWhile is_space (rev ?m)"
  from assms have r: "?r \<noteq> []" unfolding trim_def by simp
  then have "\<not> is_space (hd ?r)" by (rule hd_dropWhile)
  then have lst: "\<not> is_space (last (trim s))" by (simp add: trim_def last_rev)
  have m: "?m \<noteq> []"
  proof
    assume e: "?m = []"
    have "?r = []" unfolding e by simp
    with r show False by contradiction
  qed
  then have hm: "\<not> is_space (hd ?m)" by (rule hd_dropWhile)
  have "rev ?m = takeWhile is_space (rev ?m) @ ?r" by simp
  with r have "last (rev ?m) = last ?r" by (metis last_appendR)
  then have "hd (trim s) = hd ?m" by (simp add: trim_def hd_rev last_rev)
  with hm lst show ?thesis by simp
qed

lemma colors_array_blank:
  assumes "\<forall>c \<in> set s. is_space c \<or> c = CHR '',''"
  shows "colors_array s = []"
proof -
  have "trim p = []" if "p \<in> set (split CHR '','' s)" for p
  proof -
    from split_piece_chars [OF that] assms have "\<forall>c \<in> set p. is_space c" by auto
    then show ?thesis by (simp add: trim_eq_Nil)
  qed
  then show ?thesis by (simp add: colors_array_def filter_empty_conv)
qed

subsection \<open>The matching engine\<close>

text \<open>
  Claim C1 (broad match rule). When the lower-cased detected list has at least 3
  entries, a product of a well-formed catalog is among the matches exactly when at least 3
  occurrences of its tags have a lower-case form in the set of lower-cased detected colors.
  The count is the length of the filtered tag list, so a repeated tag counts each time.
\<close>

theorem broad_match_rule:
  assumes "3 \<le> length (map toLowerCase D)" and "list_all well_formed catalog"
  shows "\<exists>matches. match_products (map JStr D) (JArr catalog) = Inr matches \<and>
           (\<forall>P \<in> set catalog. P \<in> set matches \<longleftrightarrow>
              3 \<le> length (filter (\<lambda>tag. toLowerCase tag \<in> set (map toLowerCase D))
                             (tag_strings P)))"
  using assms match_products_well_formed [OF assms(2), of D] by simp

theorem broad_match_rule_witness:
  "3 \<le> length (map toLowerCase [''Black'', ''white'', ''RED''])
   \<and> list_all well_formed
        [JObj [(''colorTags'', JArr [JStr ''red'', JStr ''Red'', JStr ''RED''])],
         JObj [(''colorTags'', JArr [JStr ''black'', JStr ''white''])],
         JObj [(''name'', JStr ''untagged'')]]
   \<and> match_products (map JStr [''Black'', ''white'', ''RED''])
        (JArr [JObj [(''colorTags'', JArr [JStr ''red'', JStr ''Red'', JStr ''RED''])],
               JObj [(''colorTags'', JArr [JStr ''black'', JStr ''white''])],
               JObj [(''name'', JStr ''untagged'')]])
       = Inr [JObj [(''colorTags'', JArr [JStr ''red'', JStr ''Red'', JStr ''RED''])]]
   \<and> (\<exists>matches. match_products (map JStr [''Black'', ''white'', ''RED''])
        (JArr [JObj [(''colorTags'', JArr [JStr ''red'', JStr ''Red'', JStr ''RED''])],
               JObj [(''colorTags'', JArr [JStr ''black'', JStr ''white''])],
               JObj [(''name'', JStr ''untagged'')]]) = Inr matches
        \<and> (\<forall>P \<in> set [JObj [(''colorTags'', JArr [JStr ''red'', JStr ''Red'', JStr ''RED''])],
               JObj [(''colorTags'', JArr [JStr ''black'', JStr ''white''])],
               JObj [(''name'', JStr ''untagged'')]]. P \<in> set matches \<longleftrightarrow>
              3 \<le> length (filter (\<lambda>tag. toLowerCase tag \<in> set (map toLowerCase [''Black'', ''white'', ''RED'']))
                             (tag_strings P))))"
proof -
  have h1: "3 \<le> length (map toLowerCase [''Black'', ''white'', ''RED''])" by simp
  have h2: "list_all well_formed
        [JObj [(''colorTags'', JArr [JStr ''red'', JStr ''Red'', JStr ''RED''])],
         JObj [(''colorTags'', JArr [JStr ''black'', JStr ''white''])],
         JObj [(''name'', JStr ''untagged'')]]"
    by (simp add: well_formed_def tag_array_def)
  have h3: "match_products (map JStr [''Black'', ''white'', ''RED''])
        (JArr [JObj [(''colorTags'', JArr [JStr ''red'', JStr ''Red'', JStr ''RED''])],
               JObj [(''colorTags'', JArr [JStr ''black'', JStr ''white''])],
               JObj [(''name'', JStr ''untagged'')]])
       = Inr [JObj [(''colorTags'', JArr [JStr ''red'', JStr ''Red'', JStr ''RED''])]]"
    by code_simp
  from h1 h2 h3 broad_match_rule [OF h1 h2] show ?thesis by blast
qed

text \<open>
  Claim C2 (exact subset rule). When the lower-cased detected list has fewer than 3
  entries, a product is among the matches exactly when every lower-cased detected color
  is a member of the set of its lower-cased tags: for every product when the list is not
  empty (the only lists the handler passes on, since two empty lists end the analysis
  before), and for every product with a \<^verbatim>\<open>colorTags\<close> array in any case. A product
  without such an array has no tags and is never among the matches.
\<close>

theorem exact_subset_rule:
  assumes "length (map toLowerCase D) < 3" and "list_all well_formed catalog"
  shows "\<exists>matches. match_products (map JStr D) (JArr catalog) = Inr matches \<and>
           (\<forall>P \<in> set catalog.
              P \<in> set matches \<longleftrightarrow>
                tag_array P \<noteq> None \<and>
                (\<forall>color \<in> set (map toLowerCase D).
                   color \<in> set (map toLowerCase (tag_strings P)))) \<and>
           (D \<noteq> [] \<longrightarrow>
              (\<forall>P \<in> set catalog.
                 P \<in> set matches \<longleftrightarrow>
                   (\<forall>color \<in> set (map toLowerCase D).
                      color \<in> set (map toLowerCase (tag_strings P)))))"
proof -
  let ?q = "\<lambda>P. tag_array P \<noteq> None \<and>
               (\<forall>color \<in> set (map toLowerCase D). color \<in> set (map toLowerCase (tag_strings P)))"
  from assms match_products_well_formed [OF assms(2), of D]
  have m: "match_products (map JStr D) (JArr catalog) = Inr (filter ?q catalog)" by simp
  have "?q P \<longleftrightarrow>
          (\<forall>color \<in> set (map toLowerCase D). color \<in> set (map toLowerCase (tag_strings P)))"
    if "D \<noteq> []" for P
  proof (cases "tag_array P")
    case None
    then have "tag_strings P = []" by (simp add: tag_strings_def)
    with that None show ?thesis by (cases D) auto
  next
    case (Some tags)
    then show ?thesis by simp
  qed
  with m show ?thesis by auto
qed

theorem exact_subset_rule_witness:
  "length (map toLowerCase [''Teal'']) < 3
   \<and> list_all well_formed
        [JObj [(''colorTags'', JArr [JStr ''teal'', JStr ''black''])],
         JObj [(''colorTags'', JArr [JStr ''navy''])]]
   \<and> [''Teal''] \<noteq> []
   \<and> match_products (map JStr [''Teal''])
        (JArr [JObj [(''colorTags'', JArr [JStr ''teal'', JStr ''black''])],
               JObj [(''colorTags'', JArr [JStr ''navy''])]])
       = Inr [JObj [(''colorTags'', JArr [JStr ''teal'', JStr ''black''])]]
   \<and> (\<exists>matches. match_products (map JStr [''Teal''])
        (JArr [JObj [(''colorTags'', JArr [JStr ''teal'', JStr ''black''])],
               JObj [(''colorTags'', JArr [JStr ''navy''])]]) = Inr matches
        \<and> (\<forall>P \<in> set [JObj [(''colorTags'', JArr [JStr ''teal'', JStr ''black''])],
                        JObj [(''colorTags'', JArr [JStr ''navy''])]].
              P \<in> set matches \<longleftrightarrow>
                 (\<forall>color \<in> set (map toLowerCase [''Teal'']).
                    color \<in> set (map toLowerCase (tag_strings P)))))"
proof -
  have h1: "length (map toLowerCase [''Teal'']) < 3" by simp
  have h2: "list_all well_formed
        [JObj [(''colorTags'', JArr [JStr ''teal'', JStr ''black''])],
         JObj [(''colorTags'', JArr [JStr ''navy''])]]"
    by (simp add: well_formed_def tag_array_def)
  have h3: "match_products (map JStr [''Teal''])
        (JArr [JObj [(''colorTags'', JArr [JStr ''teal'', JStr ''black''])],
               JObj [(''colorTags'', JArr [JStr ''navy''])]])
       = Inr [JObj [(''colorTags'', JArr [JStr ''teal'', JStr ''black''])]]"
    by code_simp
  have h4: "[''Teal''] \<noteq> []" by simp
  from h1 h2 h3 h4 exact_subset_rule [OF h1 h2] show ?thesis by blast
qed

text \<open>
  Claim C4, as stated, fails: a \<^verbatim>\<open>colorTags\<close> array holding a value that is not a
  string makes the matching throw (the handler's \<^verbatim>\<open>catch\<close> then reports the general
  error).
\<close>

theorem matching_raises_on_non_string_tag:
  "match_products [JStr ''red''] (JArr [JObj [(''colorTags'', JArr [JNum 1])]]) = Inl TypeError"
  by (simp add: match_products_def rule2_def)

text \<open>
  Claim C4, amended. For detected colors that are strings and a catalog whose products
  have \<^verbatim>\<open>colorTags\<close> absent, not an array, or an array of strings, the matching returns
  a list without raising, and a product without a \<^verbatim>\<open>colorTags\<close> array is not in it.
\<close>

theorem matching_total_on_string_tags:
  assumes "list_all is_str colors" and "list_all well_formed catalog"
  shows "\<exists>matches. match_products colors (JArr catalog) = Inr matches \<and>
           (\<forall>P \<in> set catalog. tag_array P = None \<longrightarrow> P \<notin> set matches)"
proof -
  have c: "map JStr (map str_of colors) = colors" using assms(1) by (rule strings_map_JStr)
  from match_products_well_formed [OF assms(2), of "map str_of colors"]
  obtain matches where m: "match_products colors (JArr catalog) = Inr matches"
    unfolding c by blast
  have "P \<notin> set matches" if "P \<in> set catalog" "tag_array P = None" for P
  proof -
    from that assms(2) have "well_formed P" by (simp add: list_all_iff)
    with that(2) obtain v where v: "get_prop P ''colorTags'' = Inr v" "\<not> isArray v"
      using tag_array_None by (auto simp: well_formed_def)
    have "rule1 S P = Inr False" for S using v by (rule rule1_no_array)
    moreover have "rule2 lc P = Inr False" for lc using v by (rule rule2_no_array)
    ultimately show ?thesis using match_products_member [OF m, of P] by auto
  qed
  with m show ?thesis by blast
qed

theorem matching_total_on_string_tags_witness:
  "list_all is_str [JStr ''red'']
   \<and> list_all well_formed
        [JObj [(''name'', JStr ''Runner'')], JObj [(''colorTags'', JNum 5)],
         JObj [(''colorTags'', JArr [JStr ''Red''])]]
   \<and> (\<exists>matches. match_products [JStr ''red'']
         (JArr [JObj [(''name'', JStr ''Runner'')], JObj [(''colorTags'', JNum 5)],
                JObj [(''colorTags'', JArr [JStr ''Red''])]]) = Inr matches
        \<and> (\<forall>P \<in> set [JObj [(''name'', JStr ''Runner'')], JObj [(''colorTags'', JNum 5)],
                        JObj [(''colorTags'', JArr [JStr ''Red''])]].
              tag_array P = None \<longrightarrow> P \<notin> set matches))"
proof -
  have h1: "list_all is_str [JStr ''red'']" by simp
  have h2: "list_all well_formed
        [JObj [(''name'', JStr ''Runner'')], JObj [(''colorTags'', JNum 5)],
         JObj [(''colorTags'', JArr [JStr ''Red''])]]"
    by (simp add: well_formed_def tag_array_def)
  from h1 h2 matching_total_on_string_tags [OF h1 h2] show ?thesis by blast
qed

text \<open>
  Claim C6 (missing tags). A product whose \<^verbatim>\<open>colorTags\<close> is missing or not an array
  fails both rules, whatever the detected colors, and is in no match result.
\<close>

theorem missing_tags_never_match:
  assumes "get_prop P ''colorTags'' = Inr v" and "\<not> isArray v"
  shows "rule1 S P = Inr False \<and> rule2 lc P = Inr False \<and>
         (match_products colors (JArr catalog) = Inr matches \<longrightarrow> P \<notin> set matches)"
proof -
  have r1: "rule1 S' P = Inr False" for S' using assms by (rule rule1_no_array)
  have r2: "rule2 lc' P = Inr False" for lc' using assms by (rule rule2_no_array)
  have "P \<notin> set matches" if "match_products colors (JArr catalog) = Inr matches"
    using match_products_member [OF that, of P] r1 r2 by auto
  with r1 r2 show ?thesis by blast
qed

theorem missing_tags_never_match_witness:
  "get_prop (JObj [(''name'', JStr ''Runner'')]) ''colorTags'' = Inr JUndefined
   \<and> \<not> isArray JUndefined
   \<and> rule1 {''red''} (JObj [(''name'', JStr ''Runner'')]) = Inr False
   \<and> rule2 [] (JObj [(''name'', JStr ''Runner'')]) = Inr False
   \<and> match_products [JStr ''red'']
        (JArr [JObj [(''name'', JStr ''Runner'')], JObj [(''colorTags'', JArr [JStr ''Red''])]])
       = Inr [JObj [(''colorTags'', JArr [JStr ''Red''])]]
   \<and> JObj [(''name'', JStr ''Runner'')] \<notin> set [JObj [(''colorTags'', JArr [JStr ''Red''])]]"
proof -
  have h1: "get_prop (JObj [(''name'', JStr ''Runner'')]) ''colorTags'' = Inr JUndefined"
    by simp
  have h2: "\<not> isArray JUndefined" by simp
  have h3: "match_products [JStr ''red'']
        (JArr [JObj [(''name'', JStr ''Runner'')], JObj [(''colorTags'', JArr [JStr ''Red''])]])
       = Inr [JObj [(''colorTags'', JArr [JStr ''Red''])]]"
    by code_simp
  from h1 h2 h3
    missing_tags_never_match [OF h1 h2, of "{''red''}" "[]" "[JStr ''red'']"
      "[JObj [(''name'', JStr ''Runner'')], JObj [(''colorTags'', JArr [JStr ''Red''])]]"
      "[JObj [(''colorTags'', JArr [JStr ''Red''])]]"]
  show ?thesis by blast
qed

text \<open>
  Claim C7 (empty detected list). With no detected color the exact-subset rule applies
  and the matches are exactly the products that have a \<^verbatim>\<open>colorTags\<close> array, empty or
  not, in catalog order.
\<close>

theorem empty_detected_matches_tag_arrays:
  assumes "list_all well_formed catalog"
  shows "match_products [] (JArr catalog) = Inr (filter (\<lambda>P. tag_array P \<noteq> None) catalog)"
proof -
  from assms have "\<forall>P \<in> set catalog. rule2 [] P = Inr (tag_array P \<noteq> None)"
    by (simp add: list_all_iff rule2_well_formed)
  then have "filter_exn (rule2 []) catalog = Inr (filter (\<lambda>P. tag_array P \<noteq> None) catalog)"
    by (rule filter_exn_total)
  then show ?thesis by (simp add: match_products_def)
qed

theorem empty_detected_matches_tag_arrays_witness:
  "list_all well_formed
     [JObj [(''colorTags'', JArr [])], JObj [(''name'', JStr ''Runner'')],
      JObj [(''colorTags'', JStr ''red'')], JObj [(''colorTags'', JArr [JStr ''red''])]]
   \<and> match_products []
        (JArr [JObj [(''colorTags'', JArr [])], JObj [(''name'', JStr ''Runner'')],
               JObj [(''colorTags'', JStr ''red'')], JObj [(''colorTags'', JArr [JStr ''red''])]])
       = Inr [JObj [(''colorTags'', JArr [])], JObj [(''colorTags'', JArr [JStr ''red''])]]"
proof -
  have h: "list_all well_formed
     [JObj [(''colorTags'', JArr [])], JObj [(''name'', JStr ''Runner'')],
      JObj [(''colorTags'', JStr ''red'')], JObj [(''colorTags'', JArr [JStr ''red''])]]"
    by (simp add: well_formed_def tag_array_def)
  from h empty_detected_matches_tag_arrays [OF h] show ?thesis
    by (simp add: tag_array_def)
qed

text \<open>
  Claim C9 (match is a filter). Whenever the matching returns, its result is the catalog
  filtered by the rule chosen for the detected list, so it keeps the catalog's order and
  multiplicities; on a well-formed catalog it does return; on the empty catalog it returns
  the empty list.
\<close>

theorem match_is_filter:
  "(match_products (map JStr D) (JArr catalog) = Inr matches \<longrightarrow>
      matches = filter (\<lambda>P. (if 3 \<le> length D then rule1 (set (map toLowerCase D)) P
                               else rule2 (map toLowerCase D) P) = Inr True) catalog)
   \<and> (list_all well_formed catalog \<longrightarrow>
        (\<exists>ms. match_products (map JStr D) (JArr catalog) = Inr ms))
   \<and> match_products (map JStr D) (JArr []) = Inr []"
proof (intro conjI impI)
  assume "match_products (map JStr D) (JArr catalog) = Inr matches"
  then show "matches = filter (\<lambda>P. (if 3 \<le> length D then rule1 (set (map toLowerCase D)) P
                               else rule2 (map toLowerCase D) P) = Inr True) catalog"
    by (auto simp: match_products_strings split: if_splits dest: filter_exn_Inr)
next
  assume wf: "list_all well_formed catalog"
  let ?q1 = "\<lambda>P. 3 \<le> length (filter (\<lambda>tag. toLowerCase tag \<in> set (map toLowerCase D))
                             (tag_strings P))"
  let ?q2 = "\<lambda>P. tag_array P \<noteq> None \<and>
               (\<forall>color \<in> set (map toLowerCase D). color \<in> set (map toLowerCase (tag_strings P)))"
  from wf have "filter_exn (rule1 (set (map toLowerCase D))) catalog = Inr (filter ?q1 catalog)"
    by (intro filter_exn_total) (simp add: list_all_iff rule1_well_formed)
  moreover from wf have "filter_exn (rule2 (map toLowerCase D)) catalog = Inr (filter ?q2 catalog)"
    by (intro filter_exn_total) (simp add: list_all_iff rule2_well_formed)
  ultimately show "\<exists>ms. match_products (map JStr D) (JArr catalog) = Inr ms"
    by (simp add: match_products_strings)
next
  show "match_products (map JStr D) (JArr []) = Inr []"
    by (simp add: match_products_strings)
qed

theorem match_is_filter_witness:
  "match_products (map JStr [''red''])
     (JArr [JObj [(''colorTags'', JArr [JStr ''Red''])], JObj [(''colorTags'', JArr [JStr ''blue''])],
            JObj [(''colorTags'', JArr [JStr ''Red''])]])
     = Inr [JObj [(''colorTags'', JArr [JStr ''Red''])], JObj [(''colorTags'', JArr [JStr ''Red''])]]
   \<and> [JObj [(''colorTags'', JArr [JStr ''Red''])], JObj [(''colorTags'', JArr [JStr ''Red''])]]
     = filter (\<lambda>P. (if 3 \<le> length [''red''] then rule1 (set (map toLowerCase [''red''])) P
                      else rule2 (map toLowerCase [''red'']) P) = Inr True)
         [JObj [(''colorTags'', JArr [JStr ''Red''])], JObj [(''colorTags'', JArr [JStr ''blue''])],
          JObj [(''colorTags'', JArr [JStr ''Red''])]]
   \<and> list_all well_formed
       [JObj [(''colorTags'', JArr [JStr ''Red''])], JObj [(''colorTags'', JArr [JStr ''blue''])],
        JObj [(''colorTags'', JArr [JStr ''Red''])]]
   \<and> match_products (map JStr [''red'']) (JArr []) = Inr []"
proof -
  have h1: "match_products (map JStr [''red''])
     (JArr [JObj [(''colorTags'', JArr [JStr ''Red''])], JObj [(''colorTags'', JArr [JStr ''blue''])],
            JObj [(''colorTags'', JArr [JStr ''Red''])]])
     = Inr [JObj [(''colorTags'', JArr [JStr ''Red''])], JObj [(''colorTags'', JArr [JStr ''Red''])]]"
    by code_simp
  have h2: "list_all well_formed
       [JObj [(''colorTags'', JArr [JStr ''Red''])], JObj [(''colorTags'', JArr [JStr ''blue''])],
        JObj [(''colorTags'', JArr [JStr ''Red''])]]"
    by (simp add: well_formed_def tag_array_def)
  from h1 h2
    match_is_filter [of "[''red'']"
      "[JObj [(''colorTags'', JArr [JStr ''Red''])], JObj [(''colorTags'', JArr [JStr ''blue''])],
        JObj [(''colorTags'', JArr [JStr ''Red''])]]"
      "[JObj [(''colorTags'', JArr [JStr ''Red''])], JObj [(''colorTags'', JArr [JStr ''Red''])]]"]
  show ?thesis by blast
qed

subsection \<open>The analysis handler\<close>

text \<open>
  Claim C3 (branch selection). For color lists of strings, the matching stage applies
  rule 1 exactly when the concatenation of the main colors and the side colors has at least
  3 entries, and rule 2 otherwise; only the length is compared, so repeated colors count.
\<close>

theorem branch_selected_by_raw_length:
  "match_stage st (JArr (map JStr mainCs)) (JArr (map JStr sideCs)) =
     (case (if 3 \<le> length mainCs + length sideCs
            then array_filter (rule1 (set (map toLowerCase (mainCs @ sideCs)))) (allProducts st)
            else array_filter (rule2 (map toLowerCase (mainCs @ sideCs))) (allProducts st)) of
        Inl e \<Rightarrow> (st\<lparr>detectedColors := (JArr (map JStr mainCs), JArr (map JStr sideCs))\<rparr>, Some e)
      | Inr matches \<Rightarrow>
          (st\<lparr>detectedColors := (JArr (map JStr mainCs), JArr (map JStr sideCs)),
              matchingProducts := matches\<rparr>, None))"
proof -
  have "map JStr mainCs @ map JStr sideCs = map JStr (mainCs @ sideCs)" by simp
  then show ?thesis
    by (simp only: match_stage_arrays match_products_strings length_append)
qed

theorem branch_selected_by_raw_length_witness:
  "match_stage
     \<lparr>allProducts = JArr [JObj [(''colorTags'', JArr [JStr ''red''])]],
        matchingProducts = [], detectedColors = (JArr [], JArr []),
        isAnalyzing = True, analysisMessage = ''Analyzing image...'', error = None\<rparr>
     (JArr (map JStr [''red'', ''Red''])) (JArr (map JStr [''RED'']))
   = (\<lparr>allProducts = JArr [JObj [(''colorTags'', JArr [JStr ''red''])]],
        matchingProducts = [],
        detectedColors = (JArr [JStr ''red'', JStr ''Red''], JArr [JStr ''RED'']),
        isAnalyzing = True, analysisMessage = ''Analyzing image...'', error = None\<rparr>, None)
   \<and> array_filter (rule2 (map toLowerCase ([''red'', ''Red''] @ [''RED''])))
       (JArr [JObj [(''colorTags'', JArr [JStr ''red''])]])
     = Inr [JObj [(''colorTags'', JArr [JStr ''red''])]]"
proof -
  have h1: "array_filter (rule1 (set (map toLowerCase ([''red'', ''Red''] @ [''RED'']))))
       (allProducts \<lparr>allProducts = JArr [JObj [(''colorTags'', JArr [JStr ''red''])]],
        matchingProducts = [], detectedColors = (JArr [], JArr []),
        isAnalyzing = True, analysisMessage = ''Analyzing image...'', error = None\<rparr>)
     = Inr []"
    by code_simp
  have h2: "array_filter (rule2 (map toLowerCase ([''red'', ''Red''] @ [''RED''])))
       (JArr [JObj [(''colorTags'', JArr [JStr ''red''])]])
     = Inr [JObj [(''colorTags'', JArr [JStr ''red''])]]"
    by code_simp
  have h3: "3 \<le> length [''red'', ''Red''] + length [''RED'']" by simp
  note t = branch_selected_by_raw_length
    [of "\<lparr>allProducts = JArr [JObj [(''colorTags'', JArr [JStr ''red''])]],
        matchingProducts = [], detectedColors = (JArr [], JArr []),
        isAnalyzing = True, analysisMessage = ''Analyzing image...'', error = None\<rparr>"
        "[''red'', ''Red'']" "[''RED'']"]
  from t [unfolded if_P [OF h3] h1]
  have "match_stage
     \<lparr>allProducts = JArr [JObj [(''colorTags'', JArr [JStr ''red''])]],
        matchingProducts = [], detectedColors = (JArr [], JArr []),
        isAnalyzing = True, analysisMessage = ''Analyzing image...'', error = None\<rparr>
     (JArr (map JStr [''red'', ''Red''])) (JArr (map JStr [''RED'']))
   = (\<lparr>allProducts = JArr [JObj [(''colorTags'', JArr [JStr ''red''])]],
        matchingProducts = [],
        detectedColors = (JArr [JStr ''red'', JStr ''Red''], JArr [JStr ''RED'']),
        isAnalyzing = True, analysisMessage = ''Analyzing image...'', error = None\<rparr>, None)"
    by simp
  with h2 show ?thesis by blast
qed

text \<open>
  Claim C5, as stated, fails: a payload whose \<^verbatim>\<open>isShoe\<close> is present but not a
  boolean (here the string \<^verbatim>\<open>"yes"\<close>) passes the check, and the colors are published
  and matched.
\<close>

theorem non_boolean_isShoe_proceeds:
  "error (handleImageAnalysis
            \<lparr>allProducts = JArr [JObj [(''colorTags'', JArr [JStr ''red''])]],
               matchingProducts = [], detectedColors = (JArr [], JArr []),
               isAnalyzing = False, analysisMessage = [], error = None\<rparr>
            (Parsed (JObj [(''isShoe'', JStr ''yes''), (''mainColors'', JArr [JStr ''Red''])])))
     = None
   \<and> detectedColors (handleImageAnalysis
            \<lparr>allProducts = JArr [JObj [(''colorTags'', JArr [JStr ''red''])]],
               matchingProducts = [], detectedColors = (JArr [], JArr []),
               isAnalyzing = False, analysisMessage = [], error = None\<rparr>
            (Parsed (JObj [(''isShoe'', JStr ''yes''), (''mainColors'', JArr [JStr ''Red''])])))
     = (JArr [JStr ''Red''], JArr [])
   \<and> matchingProducts (handleImageAnalysis
            \<lparr>allProducts = JArr [JObj [(''colorTags'', JArr [JStr ''red''])]],
               matchingProducts = [], detectedColors = (JArr [], JArr []),
               isAnalyzing = False, analysisMessage = [], error = None\<rparr>
            (Parsed (JObj [(''isShoe'', JStr ''yes''), (''mainColors'', JArr [JStr ''Red''])])))
     = [JObj [(''colorTags'', JArr [JStr ''red''])]]"
  by code_simp

text \<open>
  Claim C5, amended. The analysis ends with the inconclusive error exactly when the
  payload is falsy or has no \<^verbatim>\<open>isShoe\<close> property (it reads as \<^verbatim>\<open>undefined\<close>);
  then no colors are published and no match is computed.
\<close>

theorem inconclusive_iff_isShoe_absent:
  "(error (handleImageAnalysis st (Parsed r)) = Some InconclusiveAnalysis \<longleftrightarrow>
      (\<not> truthy r \<or> get_prop r ''isShoe'' = Inr JUndefined))
   \<and> (\<not> truthy r \<or> get_prop r ''isShoe'' = Inr JUndefined \<longrightarrow>
        detectedColors (handleImageAnalysis st (Parsed r)) = (JArr [], JArr []) \<and>
        matchingProducts (handleImageAnalysis st (Parsed r)) = [])"
proof -
  have a: "error (handleImageAnalysis st (Parsed r)) = Some InconclusiveAnalysis \<and>
        detectedColors (handleImageAnalysis st (Parsed r)) = (JArr [], JArr []) \<and>
        matchingProducts (handleImageAnalysis st (Parsed r)) = []"
    if "\<not> truthy r \<or> get_prop r ''isShoe'' = Inr JUndefined"
    by (simp add: handler_inconclusive [OF that])
  have b: "error (handleImageAnalysis st (Parsed r)) \<noteq> Some InconclusiveAnalysis"
    if "\<not> (\<not> truthy r \<or> get_prop r ''isShoe'' = Inr JUndefined)"
    using that handler_not_inconclusive [of r st] by simp
  from a b show ?thesis by blast
qed

theorem inconclusive_iff_isShoe_absent_witness:
  "get_prop (JObj [(''mainColors'', JArr [JStr ''Red''])]) ''isShoe'' = Inr JUndefined
   \<and> error (handleImageAnalysis
            \<lparr>allProducts = JArr [JObj [(''colorTags'', JArr [JStr ''red''])]],
               matchingProducts = [JNull], detectedColors = (JArr [JStr ''old''], JArr []),
               isAnalyzing = False, analysisMessage = [], error = None\<rparr>
            (Parsed (JObj [(''mainColors'', JArr [JStr ''Red''])])))
       = Some InconclusiveAnalysis
   \<and> detectedColors (handleImageAnalysis
            \<lparr>allProducts = JArr [JObj [(''colorTags'', JArr [JStr ''red''])]],
               matchingProducts = [JNull], detectedColors = (JArr [JStr ''old''], JArr []),
               isAnalyzing = False, analysisMessage = [], error = None\<rparr>
            (Parsed (JObj [(''mainColors'', JArr [JStr ''Red''])])))
       = (JArr [], JArr [])
   \<and> matchingProducts (handleImageAnalysis
            \<lparr>allProducts = JArr [JObj [(''colorTags'', JArr [JStr ''red''])]],
               matchingProducts = [JNull], detectedColors = (JArr [JStr ''old''], JArr []),
               isAnalyzing = False, analysisMessage = [], error = None\<rparr>
            (Parsed (JObj [(''mainColors'', JArr [JStr ''Red''])])))
       = []"
proof -
  have h: "get_prop (JObj [(''mainColors'', JArr [JStr ''Red''])]) ''isShoe'' = Inr JUndefined"
    by simp
  from h inconclusive_iff_isShoe_absent
    [of "\<lparr>allProducts = JArr [JObj [(''colorTags'', JArr [JStr ''red''])]],
               matchingProducts = [JNull], detectedColors = (JArr [JStr ''old''], JArr []),
               isAnalyzing = False, analysisMessage = [], error = None\<rparr>"
        "JObj [(''mainColors'', JArr [JStr ''Red''])]"]
  show ?thesis by blast
qed

text \<open>
  Claim C8 (color defaults and the empty check). For a payload with \<^verbatim>\<open>isShoe\<close> true
  whose color fields are absent or arrays, absent fields count as empty lists; when both
  lists are empty the analysis ends with the no-colors error, publishing nothing; otherwise
  exactly the two lists are published as the detected colors, and the handler ends without
  an error precisely when the following matching returns.
\<close>

theorem colors_defaulted_then_checked:
  assumes "get_prop r ''isShoe'' = Inr (JBool True)"
      and "color_list r ''mainColors'' = Some ms"
      and "color_list r ''sideColors'' = Some ss"
  shows "(ms = [] \<and> ss = [] \<longrightarrow>
            error (handleImageAnalysis st (Parsed r)) = Some NoColorsDetected \<and>
            detectedColors (handleImageAnalysis st (Parsed r)) = (JArr [], JArr []) \<and>
            matchingProducts (handleImageAnalysis st (Parsed r)) = [])
       \<and> (\<not> (ms = [] \<and> ss = []) \<longrightarrow>
            detectedColors (handleImageAnalysis st (Parsed r)) = (JArr ms, JArr ss) \<and>
            (case match_products (ms @ ss) (allProducts st) of
               Inr matches \<Rightarrow> error (handleImageAnalysis st (Parsed r)) = None \<and>
                               matchingProducts (handleImageAnalysis st (Parsed r)) = matches
             | Inl e \<Rightarrow> error (handleImageAnalysis st (Parsed r)) = Some AnalysisOrMatchingFailed \<and>
                         matchingProducts (handleImageAnalysis st (Parsed r)) = []) \<and>
            (list_all is_str (ms @ ss) \<and> allProducts st = JArr catalog \<and>
             list_all well_formed catalog \<longrightarrow>
               error (handleImageAnalysis st (Parsed r)) = None))"
proof -
  have ok: "\<exists>matches. match_products (ms @ ss) (allProducts st) = Inr matches"
    if "list_all is_str (ms @ ss)" "allProducts st = JArr catalog" "list_all well_formed catalog"
    using match_products_well_formed [OF that(3), of "map str_of (ms @ ss)"]
      strings_map_JStr [OF that(1)] that(2)
    by simp
  have main: "(ms = [] \<and> ss = [] \<longrightarrow>
            error (handleImageAnalysis st (Parsed r)) = Some NoColorsDetected \<and>
            detectedColors (handleImageAnalysis st (Parsed r)) = (JArr [], JArr []) \<and>
            matchingProducts (handleImageAnalysis st (Parsed r)) = [])
       \<and> (\<not> (ms = [] \<and> ss = []) \<longrightarrow>
            detectedColors (handleImageAnalysis st (Parsed r)) = (JArr ms, JArr ss) \<and>
            (case match_products (ms @ ss) (allProducts st) of
               Inr matches \<Rightarrow> error (handleImageAnalysis st (Parsed r)) = None \<and>
                               matchingProducts (handleImageAnalysis st (Parsed r)) = matches
             | Inl e \<Rightarrow> error (handleImageAnalysis st (Parsed r)) = Some AnalysisOrMatchingFailed \<and>
                         matchingProducts (handleImageAnalysis st (Parsed r)) = []))"
    by (simp add: handleImageAnalysis_def after_parse_shoe [OF assms] fail_with_def
        match_stage_arrays begin_analysis_def split: sum.splits)
  show ?thesis
  proof (cases "ms = [] \<and> ss = []")
    case True
    with main show ?thesis by blast
  next
    case False
    have "error (handleImageAnalysis st (Parsed r)) = None"
      if "list_all is_str (ms @ ss) \<and> allProducts st = JArr catalog \<and> list_all well_formed catalog"
    proof -
      from that ok obtain matches where "match_products (ms @ ss) (allProducts st) = Inr matches"
        by blast
      with main False show ?thesis by simp
    qed
    with main False show ?thesis by blast
  qed
qed

theorem colors_defaulted_then_checked_witness:
  "get_prop (JObj [(''isShoe'', JBool True), (''sideColors'', JArr [JStr ''Red''])]) ''isShoe''
     = Inr (JBool True)
   \<and> color_list (JObj [(''isShoe'', JBool True), (''sideColors'', JArr [JStr ''Red''])])
        ''mainColors'' = Some []
   \<and> color_list (JObj [(''isShoe'', JBool True), (''sideColors'', JArr [JStr ''Red''])])
        ''sideColors'' = Some [JStr ''Red'']
   \<and> detectedColors (handleImageAnalysis
            \<lparr>allProducts = JArr [JObj [(''colorTags'', JArr [JStr ''red''])]],
               matchingProducts = [], detectedColors = (JArr [], JArr []),
               isAnalyzing = False, analysisMessage = [], error = None\<rparr>
            (Parsed (JObj [(''isShoe'', JBool True), (''sideColors'', JArr [JStr ''Red''])])))
       = (JArr [], JArr [JStr ''Red''])
   \<and> error (handleImageAnalysis
            \<lparr>allProducts = JArr [JObj [(''colorTags'', JArr [JStr ''red''])]],
               matchingProducts = [], detectedColors = (JArr [], JArr []),
               isAnalyzing = False, analysisMessage = [], error = None\<rparr>
            (Parsed (JObj [(''isShoe'', JBool True), (''sideColors'', JArr [JStr ''Red''])])))
       = None
   \<and> matchingProducts (handleImageAnalysis
            \<lparr>allProducts = JArr [JObj [(''colorTags'', JArr [JStr ''red''])]],
               matchingProducts = [], detectedColors = (JArr [], JArr []),
               isAnalyzing = False, analysisMessage = [], error = None\<rparr>
            (Parsed (JObj [(''isShoe'', JBool True), (''sideColors'', JArr [JStr ''Red''])])))
       = [JObj [(''colorTags'', JArr [JStr ''red''])]]"
proof -
  have h1: "get_prop (JObj [(''isShoe'', JBool True), (''sideColors'', JArr [JStr ''Red''])])
              ''isShoe'' = Inr (JBool True)"
    by simp
  have h2: "color_list (JObj [(''isShoe'', JBool True), (''sideColors'', JArr [JStr ''Red''])])
              ''mainColors'' = Some []"
    by (simp add: color_list_def)
  have h3: "color_list (JObj [(''isShoe'', JBool True), (''sideColors'', JArr [JStr ''Red''])])
              ''sideColors'' = Some [JStr ''Red'']"
    by (simp add: color_list_def)
  have h4: "match_products ([] @ [JStr ''Red''])
              (allProducts \<lparr>allProducts = JArr [JObj [(''colorTags'', JArr [JStr ''red''])]],
               matchingProducts = [], detectedColors = (JArr [], JArr []),
               isAnalyzing = False, analysisMessage = [], error = None\<rparr>)
            = Inr [JObj [(''colorTags'', JArr [JStr ''red''])]]"
    by code_simp
  from colors_defaulted_then_checked [OF h1 h2 h3,
        of "\<lparr>allProducts = JArr [JObj [(''colorTags'', JArr [JStr ''red''])]],
               matchingProducts = [], detectedColors = (JArr [], JArr []),
               isAnalyzing = False, analysisMessage = [], error = None\<rparr>"]
  have "detectedColors (handleImageAnalysis
            \<lparr>allProducts = JArr [JObj [(''colorTags'', JArr [JStr ''red''])]],
               matchingProducts = [], detectedColors = (JArr [], JArr []),
               isAnalyzing = False, analysisMessage = [], error = None\<rparr>
            (Parsed (JObj [(''isShoe'', JBool True), (''sideColors'', JArr [JStr ''Red''])])))
       = (JArr [], JArr [JStr ''Red''])
   \<and> error (handleImageAnalysis
            \<lparr>allProducts = JArr [JObj [(''colorTags'', JArr [JStr ''red''])]],
               matchingProducts = [], detectedColors = (JArr [], JArr []),
               isAnalyzing = False, analysisMessage = [], error = None\<rparr>
            (Parsed (JObj [(''isShoe'', JBool True), (''sideColors'', JArr [JStr ''Red''])])))
       = None
   \<and> matchingProducts (handleImageAnalysis
            \<lparr>allProducts = JArr [JObj [(''colorTags'', JArr [JStr ''red''])]],
               matchingProducts = [], detectedColors = (JArr [], JArr []),
               isAnalyzing = False, analysisMessage = [], error = None\<rparr>
            (Parsed (JObj [(''isShoe'', JBool True), (''sideColors'', JArr [JStr ''Red''])])))
       = [JObj [(''colorTags'', JArr [JStr ''red''])]]"
    unfolding h4 by simp
  with h1 h2 h3 show ?thesis by blast
qed

subsection \<open>Product creation\<close>

text \<open>
  Claim C10 (tags of a new product). When the required fields are filled in, the body
  that is sent carries as \<^verbatim>\<open>colorTags\<close> the comma-separated pieces of the main colors
  input, trimmed and without the empty ones, followed by those of the side colors input;
  an input of white space only (or empty) contributes no tag.
\<close>

theorem product_submit_colorTags:
  assumes "name np \<noteq> []" and "imageSrc np \<noteq> []" and "link np \<noteq> []"
  shows "\<exists>body. handleProductSubmit np = Some body \<and>
           colorTags body =
             filter (\<lambda>p. p \<noteq> []) (map trim (split CHR '','' (mainColors np))) @
             filter (\<lambda>p. p \<noteq> []) (map trim (split CHR '','' (sideColors np))) \<and>
           ((\<forall>c \<in> set (mainColors np). is_space c) \<longrightarrow>
              colorTags body =
                filter (\<lambda>p. p \<noteq> []) (map trim (split CHR '','' (sideColors np)))) \<and>
           ((\<forall>c \<in> set (sideColors np). is_space c) \<longrightarrow>
              colorTags body =
                filter (\<lambda>p. p \<noteq> []) (map trim (split CHR '','' (mainColors np))))"
proof -
  have blank: "colors_array s = []" if "\<forall>c \<in> set s. is_space c" for s
    using that by (intro colors_array_blank) blast
  from assms have "handleProductSubmit np =
      Some \<lparr>name = name np, imageSrc = imageSrc np, link = link np,
            mainColors = mainColors np, sideColors = sideColors np,
            colorTags = colors_array (mainColors np) @ colors_array (sideColors np)\<rparr>"
    by (simp add: handleProductSubmit_def)
  moreover have "colors_array (mainColors np) = []" if "\<forall>c \<in> set (mainColors np). is_space c"
    using that by (rule blank)
  moreover have "colors_array (sideColors np) = []" if "\<forall>c \<in> set (sideColors np). is_space c"
    using that by (rule blank)
  ultimately show ?thesis by (auto simp: colors_array_def)
qed

theorem product_submit_colorTags_witness:
  "name \<lparr>name = ''Runner'', imageSrc = ''r.png'', link = ''shop/r'',
          mainColors = '' Red,blue ,, '', sideColors = ''  ''\<rparr> \<noteq> []
   \<and> imageSrc \<lparr>name = ''Runner'', imageSrc = ''r.png'', link = ''shop/r'',
          mainColors = '' Red,blue ,, '', sideColors = ''  ''\<rparr> \<noteq> []
   \<and> link \<lparr>name = ''Runner'', imageSrc = ''r.png'', link = ''shop/r'',
          mainColors = '' Red,blue ,, '', sideColors = ''  ''\<rparr> \<noteq> []
   \<and> handleProductSubmit \<lparr>name = ''Runner'', imageSrc = ''r.png'', link = ''shop/r'',
          mainColors = '' Red,blue ,, '', sideColors = ''  ''\<rparr>
       = Some \<lparr>name = ''Runner'', imageSrc = ''r.png'', link = ''shop/r'',
          mainColors = '' Red,blue ,, '', sideColors = ''  '', colorTags = [''Red'', ''blue'']\<rparr>
   \<and> (\<exists>body. handleProductSubmit \<lparr>name = ''Runner'', imageSrc = ''r.png'', link = ''shop/r'',
          mainColors = '' Red,blue ,, '', sideColors = ''  ''\<rparr> = Some body
        \<and> colorTags body =
             filter (\<lambda>p. p \<noteq> []) (map trim (split CHR '','' '' Red,blue ,, '')) @
             filter (\<lambda>p. p \<noteq> []) (map trim (split CHR '','' ''  '')))"
proof -
  have h1: "name \<lparr>name = ''Runner'', imageSrc = ''r.png'', link = ''shop/r'',
          mainColors = '' Red,blue ,, '', sideColors = ''  ''\<rparr> \<noteq> []" by simp
  have h2: "imageSrc \<lparr>name = ''Runner'', imageSrc = ''r.png'', link = ''shop/r'',
          mainColors = '' Red,blue ,, '', sideColors = ''  ''\<rparr> \<noteq> []" by simp
  have h3: "link \<lparr>name = ''Runner'', imageSrc = ''r.png'', link = ''shop/r'',
          mainColors = '' Red,blue ,, '', sideColors = ''  ''\<rparr> \<noteq> []" by simp
  have h4: "handleProductSubmit \<lparr>name = ''Runner'', imageSrc = ''r.png'', link = ''shop/r'',
          mainColors = '' Red,blue ,, '', sideColors = ''  ''\<rparr>
       = Some \<lparr>name = ''Runner'', imageSrc = ''r.png'', link = ''shop/r'',
          mainColors = '' Red,blue ,, '', sideColors = ''  '', colorTags = [''Red'', ''blue'']\<rparr>"
    by code_simp
  from product_submit_colorTags [OF h1 h2 h3]
  have "\<exists>body. handleProductSubmit \<lparr>name = ''Runner'', imageSrc = ''r.png'', link = ''shop/r'',
          mainColors = '' Red,blue ,, '', sideColors = ''  ''\<rparr> = Some body
        \<and> colorTags body =
             filter (\<lambda>p. p \<noteq> []) (map trim (split CHR '','' '' Red,blue ,, '')) @
             filter (\<lambda>p. p \<noteq> []) (map trim (split CHR '','' ''  ''))"
    by (simp only: new_product.select_convs) blast
  with h1 h2 h3 h4 show ?thesis by blast
qed

end
